theory Spec2Isabelle
  imports Complex_Main "HOL-Library.AList"
begin

section \<open>Receipt splitter: the receipt model and the Textract normalizer\<close>

text \<open>
  A shallow embedding of \<^verbatim>\<open>src/receipt_splitter_app.py\<close>: the dataclasses
  \<^verbatim>\<open>ReceiptItem\<close> and \<^verbatim>\<open>Receipt\<close> with their methods, and the two
  parsing methods of \<^verbatim>\<open>ReceiptParser\<close>.

  Conventions of the embedding.
  \<^item> A Python \<^verbatim>\<open>float\<close> amount is a \<open>real\<close>: the arithmetic is exact, rounding
    to binary64, infinities and NaN are not modelled.
  \<^item> A Python \<^verbatim>\<open>int\<close> is an \<open>int\<close>.
  \<^item> A Python \<^verbatim>\<open>str\<close> is a \<open>string\<close>; the texts are taken to be ASCII, so the
    regular expression class \<^verbatim>\<open>\d\<close> is the ten characters 0 to 9.
  \<^item> A Python exception is the left summand of a sum type.
  \<^item> A Python \<^verbatim>\<open>dict\<close> is an association list in insertion order.
\<close>

subsection \<open>Python primitives used by the source\<close>

datatype py_error = ZeroDivisionError | KeyError | ValueError

text \<open>Sequencing of computations that may raise.\<close>

definition bind_err :: "'e + 'a \<Rightarrow> ('a \<Rightarrow> 'e + 'b) \<Rightarrow> 'e + 'b" where
  "bind_err m f = (case m of Inl e \<Rightarrow> Inl e | Inr x \<Rightarrow> f x)"

text \<open>A \<^verbatim>\<open>for\<close> loop over a list whose body may raise: the first exception ends the loop.\<close>

fun for_each :: "('s \<Rightarrow> 'a \<Rightarrow> 'e + 's) \<Rightarrow> 'a list \<Rightarrow> 's \<Rightarrow> 'e + 's" where
  "for_each body [] s = Inr s"
| "for_each body (x # xs) s = bind_err (body s x) (\<lambda>s'. for_each body xs s')"

text \<open>\<^verbatim>\<open>a / b\<close> on numbers raises on a zero divisor.\<close>

definition py_truediv :: "real \<Rightarrow> real \<Rightarrow> py_error + real" where
  "py_truediv a b = (if b = 0 then Inl ZeroDivisionError else Inr (a / b))"

text \<open>\<^verbatim>\<open>xs.remove(x)\<close> deletes the first occurrence and raises when there is none.\<close>

definition list_remove :: "'a \<Rightarrow> 'a list \<Rightarrow> py_error + 'a list" where
  "list_remove x xs = (if x \<in> set xs then Inr (remove1 x xs) else Inl ValueError)"

text \<open>Dictionaries: \<^verbatim>\<open>k in d\<close>, \<^verbatim>\<open>d[k]\<close> and \<^verbatim>\<open>d[k] = v\<close>. A new key goes to the end.\<close>

type_synonym 'v pydict = "(string \<times> 'v) list"

definition dict_contains :: "string \<Rightarrow> 'v pydict \<Rightarrow> bool" where
  "dict_contains k d = (map_of d k \<noteq> None)"

definition dict_getitem :: "'v pydict \<Rightarrow> string \<Rightarrow> py_error + 'v" where
  "dict_getitem d k = (case map_of d k of None \<Rightarrow> Inl KeyError | Some v \<Rightarrow> Inr v)"

definition dict_setitem :: "string \<Rightarrow> 'v \<Rightarrow> 'v pydict \<Rightarrow> 'v pydict" where
  "dict_setitem k v d = AList.update k v d"

definition dict_keys :: "'v pydict \<Rightarrow> string list" where
  "dict_keys d = map fst d"


subsection \<open>ReceiptItem\<close>

text \<open>
  \<^verbatim>\<open>assigned_to\<close> is a list in the source; \<^verbatim>\<open>assign_to\<close> keeps it free of
  duplicates.
\<close>

record ReceiptItem =
  name :: string
  price :: real
  quantity :: int
  assigned_to :: "string list"

text \<open>The dataclass constructor: \<^verbatim>\<open>quantity\<close> defaults to 1, \<^verbatim>\<open>assigned_to\<close> to a new empty list.\<close>

definition new_ReceiptItem :: "string \<Rightarrow> real \<Rightarrow> int \<Rightarrow> ReceiptItem" where
  "new_ReceiptItem n p q = \<lparr>name = n, price = p, quantity = q, assigned_to = []\<rparr>"

definition new_ReceiptItem_default :: "string \<Rightarrow> real \<Rightarrow> ReceiptItem" where
  "new_ReceiptItem_default n p = new_ReceiptItem n p 1"

definition assign_to :: "string \<Rightarrow> ReceiptItem \<Rightarrow> ReceiptItem" where
  "assign_to person self =
     (if person \<notin> set (assigned_to self)
      then self\<lparr>assigned_to := assigned_to self @ [person]\<rparr>
      else self)"

definition unassign_from :: "string \<Rightarrow> ReceiptItem \<Rightarrow> py_error + ReceiptItem" where
  "unassign_from person self =
     (if person \<in> set (assigned_to self)
      then bind_err (list_remove person (assigned_to self))
             (\<lambda>xs. Inr (self\<lparr>assigned_to := xs\<rparr>))
      else Inr self)"

definition price_per_person :: "ReceiptItem \<Rightarrow> py_error + real" where
  "price_per_person self =
     (if assigned_to self = [] then Inr 0
      else py_truediv (price self) (real (length (assigned_to self))))"

subsection \<open>Receipt\<close>

record Receipt =
  items :: "ReceiptItem list"
  date :: string
  restaurant_name :: string
  subtotal :: real
  tax :: real
  tip :: real

definition new_Receipt :: Receipt where
  "new_Receipt = \<lparr>items = [], date = '''', restaurant_name = '''',
                  subtotal = 0, tax = 0, tip = 0\<rparr>"


definition add_item :: "ReceiptItem \<Rightarrow> Receipt \<Rightarrow> Receipt" where
  "add_item item self = self\<lparr>items := items self @ [item]\<rparr>"

text \<open>
  \<^verbatim>\<open>get_person_totals\<close> runs on a frame holding the receiver and its one local
  variable; every statement of the body is a step on the frame. The method's
  result is the dictionary it returns together with the receiver after the call.
\<close>

record frame =
  self :: Receipt
  person_totals :: "real pydict"

text \<open>Lines 57 to 59, the body of the loop over \<^verbatim>\<open>item.assigned_to\<close>.\<close>

definition person_step :: "ReceiptItem \<Rightarrow> frame \<Rightarrow> string \<Rightarrow> py_error + frame" where
  "person_step item st person =
     (let st1 = (if \<not> dict_contains person (person_totals st)
                 then st\<lparr>person_totals := dict_setitem person 0 (person_totals st)\<rparr>
                 else st)
      in bind_err (dict_getitem (person_totals st1) person) (\<lambda>old.
         bind_err (price_per_person item) (\<lambda>share.
           Inr (st1\<lparr>person_totals := dict_setitem person (old + share) (person_totals st1)\<rparr>))))"

text \<open>Lines 55 and 56, the body of the loop over \<^verbatim>\<open>self.items\<close>.\<close>

definition item_step :: "frame \<Rightarrow> ReceiptItem \<Rightarrow> py_error + frame" where
  "item_step st item = for_each (person_step item) (assigned_to item) st"

text \<open>Lines 65 to 67, the body of the loop over the keys of \<^verbatim>\<open>person_totals\<close>.\<close>

definition surcharge_step :: "frame \<Rightarrow> string \<Rightarrow> py_error + frame" where
  "surcharge_step st person =
     bind_err (dict_getitem (person_totals st) person) (\<lambda>base.
     bind_err (py_truediv base (subtotal (self st))) (\<lambda>person_subtotal_percentage.
     bind_err (dict_getitem (person_totals st) person) (\<lambda>old.
       Inr (st\<lparr>person_totals :=
              dict_setitem person
                (old + (tax (self st) + tip (self st)) * person_subtotal_percentage)
                (person_totals st)\<rparr>))))"

definition get_person_totals :: "Receipt \<Rightarrow> py_error + (real pydict \<times> Receipt)" where
  "get_person_totals r =
     bind_err (for_each item_step (items r) \<lparr>self = r, person_totals = []\<rparr>) (\<lambda>st.
     bind_err (if subtotal (self st) > 0
               then for_each surcharge_step (dict_keys (person_totals st)) st
               else Inr st) (\<lambda>st'.
       Inr (person_totals st', self st')))"

subsection \<open>ReceiptParser: texts to numbers\<close>

definition is_digit :: "char \<Rightarrow> bool" where
  "is_digit c = (c \<in> set ''0123456789'')"

text \<open>The value of a digit is its position among the ten digits.\<close>

definition digit_value :: "char \<Rightarrow> nat" where
  "digit_value c = length (takeWhile (\<lambda>d. d \<noteq> c) ''0123456789'')"

text \<open>The number a string of decimal digits denotes, most significant digit first.\<close>

definition digits_value :: "string \<Rightarrow> nat" where
  "digits_value ds = foldl (\<lambda>acc c. 10 * acc + digit_value c) 0 ds"

text \<open>
  \<^verbatim>\<open>int(s)\<close> on a string: here only strings of digits reach it, and any other
  string is a \<^verbatim>\<open>ValueError\<close>. So is a string with more digits than
  \<^verbatim>\<open>sys.get_int_max_str_digits()\<close>, 4300 unless the interpreter is configured
  otherwise. Both end in the source's \<^verbatim>\<open>except\<close> clause.
\<close>

definition int_max_str_digits :: nat where
  "int_max_str_digits = 4300"

definition py_int :: "string \<Rightarrow> py_error + int" where
  "py_int s =
     (if s \<noteq> [] \<and> list_all is_digit s \<and> length s \<le> int_max_str_digits
      then Inr (int (digits_value s))
      else Inl ValueError)"

text \<open>
  \<^verbatim>\<open>float(s)\<close> on a string over the digits, the point and the minus sign, the
  only characters that survive the cleaning of \<^verbatim>\<open>_extract_price\<close>: an optional
  leading minus sign, then digits with at most one point and at least one digit.
  The value is the exact decimal.
\<close>

definition py_float :: "string \<Rightarrow> py_error + real" where
  "py_float s =
     (let negative = (s \<noteq> [] \<and> hd s = CHR ''-'');
          body = (if negative then tl s else s);
          int_part = takeWhile is_digit body;
          rest = dropWhile is_digit body;
          frac_part = (if rest = [] then [] else tl rest);
          well_formed =
            ((rest = [] \<or> hd rest = CHR ''.'') \<and> list_all is_digit frac_part
             \<and> (int_part \<noteq> [] \<or> frac_part \<noteq> []));
          magnitude = real (digits_value int_part)
                      + real (digits_value frac_part) / 10 ^ length frac_part
      in if well_formed then Inr (if negative then - magnitude else magnitude)
         else Inl ValueError)"

text \<open>\<^verbatim>\<open>re.sub(r'[^\d\.\-]', '', text)\<close>.\<close>

definition cleaned_text :: "string \<Rightarrow> string" where
  "cleaned_text text = filter (\<lambda>c. is_digit c \<or> c = CHR ''.'' \<or> c = CHR ''-'') text"

text \<open>\<^verbatim>\<open>ReceiptParser._extract_price\<close>, lines 158 to 169.\<close>

definition extract_price :: "string \<Rightarrow> real" where
  "extract_price text =
     (if text = [] then 0
      else case py_float (cleaned_text text) of Inr v \<Rightarrow> v | Inl e \<Rightarrow> 0)"

text \<open>
  Lines 140 to 143: \<^verbatim>\<open>int(re.sub(r'[^\d]', '', qty_text) or 1)\<close> inside
  \<^verbatim>\<open>try\<close>, with 1 on \<^verbatim>\<open>ValueError\<close>.
\<close>

definition extract_quantity :: "string \<Rightarrow> int" where
  "extract_quantity qty_text =
     (let digits = filter is_digit qty_text
      in if digits = [] then 1
         else case py_int digits of Inr n \<Rightarrow> n | Inl e \<Rightarrow> 1)"

subsection \<open>ReceiptParser: the Textract response\<close>

text \<open>
  The response is nested dictionaries and lists. A key the source tests with
  \<^verbatim>\<open>in\<close> or reads with \<^verbatim>\<open>.get\<close> may be absent: \<open>None\<close>. For a field,
  \<open>Type_Text\<close> is \<^verbatim>\<open>field.get('Type', {}).get('Text')\<close> and
  \<open>ValueDetection_Text\<close> is the text under \<^verbatim>\<open>'ValueDetection'\<close>, when present.
\<close>

record ExpenseField =
  Type_Text :: "string option"
  ValueDetection_Text :: "string option"

type_synonym LineItem = "ExpenseField list option"

type_synonym LineItemGroup = "LineItem list option"

record ExpenseDocument =
  SummaryFields :: "ExpenseField list option"
  LineItemGroups :: "LineItemGroup list option"

type_synonym Response = "ExpenseDocument list option"

text \<open>\<^verbatim>\<open>field.get('ValueDetection', {}).get('Text', default)\<close>.\<close>

definition value_text :: "ExpenseField \<Rightarrow> string \<Rightarrow> string" where
  "value_text field dflt = (case ValueDetection_Text field of None \<Rightarrow> dflt | Some t \<Rightarrow> t)"

text \<open>Lines 111 to 120, the body of the loop over the summary fields.\<close>

definition summary_field_step :: "Receipt \<Rightarrow> ExpenseField \<Rightarrow> Receipt" where
  "summary_field_step receipt field =
     (if Type_Text field = Some ''VENDOR_NAME''
        then receipt\<lparr>restaurant_name := value_text field []\<rparr>
      else if Type_Text field = Some ''RECEIPT_DATE''
        then receipt\<lparr>date := value_text field []\<rparr>
      else if Type_Text field = Some ''SUBTOTAL''
        then receipt\<lparr>subtotal := extract_price (value_text field ''0.0'')\<rparr>
      else if Type_Text field = Some ''TAX''
        then receipt\<lparr>tax := extract_price (value_text field ''0.0'')\<rparr>
      else receipt)"

text \<open>The three local variables of one line item, lines 127 to 129.\<close>

record line_locals =
  item_name :: string
  item_price :: real
  item_quantity :: int

definition initial_locals :: line_locals where
  "initial_locals = \<lparr>item_name = [], item_price = 0, item_quantity = 1\<rparr>"

text \<open>Lines 133 to 143, the body of the loop over the fields of a line item.\<close>

definition line_field_step :: "line_locals \<Rightarrow> ExpenseField \<Rightarrow> line_locals" where
  "line_field_step v field =
     (if Type_Text field = Some ''ITEM''
        then v\<lparr>item_name := value_text field []\<rparr>
      else if Type_Text field = Some ''PRICE''
        then v\<lparr>item_price := extract_price (value_text field ''0.0'')\<rparr>
      else if Type_Text field = Some ''QUANTITY''
        then v\<lparr>item_quantity := extract_quantity (value_text field ''1'')\<rparr>
      else v)"

text \<open>Lines 127 to 143: the local variables after the fields of one line item.\<close>

definition line_item_locals :: "LineItem \<Rightarrow> line_locals" where
  "line_item_locals line_item =
     (case line_item of None \<Rightarrow> initial_locals
      | Some fs \<Rightarrow> foldl line_field_step initial_locals fs)"

text \<open>Lines 127 to 150, the body of the loop over the line items of a group.\<close>

definition line_item_step :: "Receipt \<Rightarrow> LineItem \<Rightarrow> Receipt" where
  "line_item_step receipt line_item =
     (let v = line_item_locals line_item
      in if item_name v \<noteq> [] \<and> item_price v > 0
         then add_item (new_ReceiptItem (item_name v) (item_price v) (item_quantity v)) receipt
         else receipt)"

definition group_step :: "Receipt \<Rightarrow> LineItemGroup \<Rightarrow> Receipt" where
  "group_step receipt grp =
     (case grp of None \<Rightarrow> receipt
      | Some line_items \<Rightarrow> foldl line_item_step receipt line_items)"

text \<open>Lines 108 to 150, the body of the loop over the documents.\<close>

definition document_step :: "Receipt \<Rightarrow> ExpenseDocument \<Rightarrow> Receipt" where
  "document_step receipt doc =
     (let receipt1 = (case SummaryFields doc of None \<Rightarrow> receipt
                      | Some fs \<Rightarrow> foldl summary_field_step receipt fs)
      in case LineItemGroups doc of None \<Rightarrow> receipt1
         | Some groups \<Rightarrow> foldl group_step receipt1 groups)"

text \<open>Lines 103 to 150: the receipt when the loop over the documents has ended.\<close>

definition scan_documents :: "Response \<Rightarrow> Receipt" where
  "scan_documents response =
     (case response of None \<Rightarrow> new_Receipt
      | Some docs \<Rightarrow> foldl document_step new_Receipt docs)"

definition parse_textract_response :: "Response \<Rightarrow> Receipt" where
  "parse_textract_response response =
     (let receipt = scan_documents response
      in if subtotal receipt = 0 \<and> items receipt \<noteq> []
         then receipt\<lparr>subtotal := sum_list (map price (items receipt))\<rparr>
         else receipt)"

subsection \<open>Notions used to state the properties\<close>

text \<open>The value a dictionary of amounts holds for a key, 0 for a key it does not have.\<close>

definition lookup0 :: "real pydict \<Rightarrow> string \<Rightarrow> real" where
  "lookup0 d k = (case map_of d k of None \<Rightarrow> 0 | Some v \<Rightarrow> v)"

text \<open>The price of an item divided among those it is assigned to, 0 for an unassigned item.\<close>

definition share_of :: "ReceiptItem \<Rightarrow> real" where
  "share_of item =
     (if assigned_to item = [] then 0 else price item / real (length (assigned_to item)))"

text \<open>One pass of lines 57 to 59 as a function on the dictionary.\<close>

definition credit :: "real \<Rightarrow> real pydict \<Rightarrow> string \<Rightarrow> real pydict" where
  "credit x d p = AList.update p (lookup0 d p + x) d"

definition credit_item :: "real pydict \<Rightarrow> ReceiptItem \<Rightarrow> real pydict" where
  "credit_item d item = foldl (credit (share_of item)) d (assigned_to item)"

text \<open>Every participant who appears in the assignment of at least one item.\<close>

definition participants :: "Receipt \<Rightarrow> string set" where
  "participants r = set (concat (map assigned_to (items r)))"

text \<open>
  The base share of a participant: the sum, over the items the participant is
  assigned to, of the item's price per person.
\<close>

definition base_share :: "Receipt \<Rightarrow> string \<Rightarrow> real" where
  "base_share r p =
     sum_list (map share_of (filter (\<lambda>item. p \<in> set (assigned_to item)) (items r)))"

text \<open>The amount lines 65 to 67 turn a base share into.\<close>

definition with_surcharge :: "Receipt \<Rightarrow> real \<Rightarrow> real" where
  "with_surcharge r v = v + (tax r + tip r) * (v / subtotal r)"

text \<open>All summary fields and all line items of a response, in the order the source visits them.\<close>

definition document_summary_fields :: "ExpenseDocument \<Rightarrow> ExpenseField list" where
  "document_summary_fields doc = (case SummaryFields doc of None \<Rightarrow> [] | Some fs \<Rightarrow> fs)"

definition all_summary_fields :: "Response \<Rightarrow> ExpenseField list" where
  "all_summary_fields response =
     concat (map document_summary_fields (case response of None \<Rightarrow> [] | Some docs \<Rightarrow> docs))"

definition group_line_items :: "LineItemGroup \<Rightarrow> LineItem list" where
  "group_line_items grp = (case grp of None \<Rightarrow> [] | Some line_items \<Rightarrow> line_items)"

definition document_line_items :: "ExpenseDocument \<Rightarrow> LineItem list" where
  "document_line_items doc =
     concat (map group_line_items (case LineItemGroups doc of None \<Rightarrow> [] | Some gs \<Rightarrow> gs))"

definition all_line_items :: "Response \<Rightarrow> LineItem list" where
  "all_line_items response =
     concat (map document_line_items (case response of None \<Rightarrow> [] | Some docs \<Rightarrow> docs))"

text \<open>A line item with a non-empty parsed name and a strictly positive parsed price.\<close>

definition accepted :: "LineItem \<Rightarrow> bool" where
  "accepted line_item =
     (item_name (line_item_locals line_item) \<noteq> [] \<and> 0 < item_price (line_item_locals line_item))"

text \<open>The item a line item becomes when it is added.\<close>

definition item_of :: "LineItem \<Rightarrow> ReceiptItem" where
  "item_of line_item =
     new_ReceiptItem (item_name (line_item_locals line_item))
       (item_price (line_item_locals line_item)) (item_quantity (line_item_locals line_item))"

text \<open>
  The subtotal a list of summary fields leaves: that of its last \<^verbatim>\<open>SUBTOTAL\<close>
  field, the subtotal before without one.
\<close>

definition latest_subtotal :: "real \<Rightarrow> ExpenseField list \<Rightarrow> real" where
  "latest_subtotal before fs =
     (case rev (filter (\<lambda>f. Type_Text f = Some ''SUBTOTAL'') fs) of
        [] \<Rightarrow> before
      | f # earlier \<Rightarrow> extract_price (value_text f ''0.0''))"

definition found_subtotal :: "Response \<Rightarrow> real" where
  "found_subtotal response = latest_subtotal 0 (all_summary_fields response)"

subsection \<open>Sample data\<close>

definition sample_item :: "string \<Rightarrow> real \<Rightarrow> string list \<Rightarrow> ReceiptItem" where
  "sample_item n p ps = \<lparr>name = n, price = p, quantity = 1, assigned_to = ps\<rparr>"

definition sample_receipt :: "real \<Rightarrow> real \<Rightarrow> real \<Rightarrow> Receipt" where
  "sample_receipt s t p =
     \<lparr>items = [sample_item ''Burger'' (1299 / 100) [''Alice''],
               sample_item ''Pizza'' (1550 / 100) [''Alice'', ''Bob''],
               sample_item ''Salad'' (899 / 100) [''Bob'']],
      date = ''2025-03-06'', restaurant_name = ''Test Restaurant'',
      subtotal = s, tax = t, tip = p\<rparr>"

definition sample_field :: "string \<Rightarrow> string \<Rightarrow> ExpenseField" where
  "sample_field ty txt = \<lparr>Type_Text = Some ty, ValueDetection_Text = Some txt\<rparr>"

definition sample_response :: "ExpenseField list \<Rightarrow> string \<Rightarrow> Response" where
  "sample_response extra qty =
     Some [\<lparr>SummaryFields = Some (sample_field ''VENDOR_NAME'' ''Cafe''
                                   # sample_field ''TAX'' ''$0.40'' # extra),
            LineItemGroups = Some [Some [
              Some [sample_field ''ITEM'' ''Cola'', sample_field ''PRICE'' ''$1.50'',
                    sample_field ''QUANTITY'' qty],
              Some [sample_field ''ITEM'' ''Water'', sample_field ''PRICE'' ''0.00''],
              Some [sample_field ''PRICE'' ''2.25''],
              Some [sample_field ''ITEM'' ''Tea'', sample_field ''PRICE'' ''2.25'',
                    sample_field ''QUANTITY'' ''2x'']]]\<rparr>]"

section \<open>Properties\<close>

subsection \<open>Raising and sequencing\<close>

lemma bind_err_Inr [simp]: "bind_err (Inr x) f = f x"
  by (simp add: bind_err_def)

lemma bind_err_Inl [simp]: "bind_err (Inl e) f = Inl e"
  by (simp add: bind_err_def)

lemma for_each_total:
  assumes "\<And>s x. body s x = Inr (g s x)"
  shows "for_each body xs s = Inr (foldl g s xs)"
  by (induction xs arbitrary: s) (simp_all add: assms)

subsection \<open>ReceiptItem\<close>

lemma price_per_person_share: "price_per_person item = Inr (share_of item)"
  by (simp add: price_per_person_def share_of_def py_truediv_def)

text \<open>
  C2. \<^verbatim>\<open>price_per_person()\<close> returns the price divided by the number of assigned
  participants when there is at least one, and 0.0 when there is none. The number
  is the length of \<^verbatim>\<open>assigned_to\<close>, which is the number of distinct participants
  when the list has no duplicates; the division never raises.
\<close>

theorem price_per_person_spec:
  "(assigned_to item \<noteq> [] \<longrightarrow>
      price_per_person item = Inr (price item / real (length (assigned_to item))))
   \<and> (assigned_to item \<noteq> [] \<and> distinct (assigned_to item) \<longrightarrow>
      price_per_person item = Inr (price item / real (card (set (assigned_to item)))))
   \<and> (assigned_to item = [] \<longrightarrow> price_per_person item = Inr 0)"
  by (simp add: price_per_person_def py_truediv_def distinct_card)

theorem price_per_person_spec_witness:
  "assigned_to (sample_item ''Pizza'' (1550 / 100) [''Alice'', ''Bob'']) \<noteq> []
   \<and> distinct (assigned_to (sample_item ''Pizza'' (1550 / 100) [''Alice'', ''Bob'']))
   \<and> price_per_person (sample_item ''Pizza'' (1550 / 100) [''Alice'', ''Bob'']) = Inr (775 / 100)
   \<and> assigned_to (sample_item ''Drink'' (399 / 100) []) = []
   \<and> price_per_person (sample_item ''Drink'' (399 / 100) []) = Inr 0"
  using price_per_person_spec [of "sample_item ''Pizza'' (1550 / 100) [''Alice'', ''Bob'']"]
    price_per_person_spec [of "sample_item ''Drink'' (399 / 100) []"]
  by (simp add: sample_item_def)

text \<open>
  C8. \<^verbatim>\<open>assign_to(p)\<close> on an item that already has \<open>p\<close> changes nothing, so a
  second call equals the first; \<^verbatim>\<open>unassign_from(p)\<close> on an item without \<open>p\<close>
  changes nothing; \<^verbatim>\<open>unassign_from\<close> never raises (\<^verbatim>\<open>assign_to\<close> has no
  operation that can).
\<close>

theorem assign_unassign_idempotent:
  "(p \<in> set (assigned_to item) \<longrightarrow> assign_to p item = item)
   \<and> assign_to p (assign_to p item) = assign_to p item
   \<and> (p \<notin> set (assigned_to item) \<longrightarrow> unassign_from p item = Inr item)
   \<and> (\<exists>item'. unassign_from p item = Inr item')"
  by (simp add: assign_to_def unassign_from_def list_remove_def)

theorem assign_unassign_idempotent_witness:
  "''Bob'' \<in> set (assigned_to (sample_item ''Pizza'' 15 [''Alice'', ''Bob'']))
   \<and> assign_to ''Bob'' (sample_item ''Pizza'' 15 [''Alice'', ''Bob''])
       = sample_item ''Pizza'' 15 [''Alice'', ''Bob'']
   \<and> ''Bob'' \<notin> set (assigned_to (sample_item ''Pizza'' 15 [''Alice'']))
   \<and> assign_to ''Bob'' (assign_to ''Bob'' (sample_item ''Pizza'' 15 [''Alice'']))
       = sample_item ''Pizza'' 15 [''Alice'', ''Bob'']
   \<and> unassign_from ''Bob'' (sample_item ''Pizza'' 15 [''Alice''])
       = Inr (sample_item ''Pizza'' 15 [''Alice''])"
  using assign_unassign_idempotent [of "''Bob''" "sample_item ''Pizza'' 15 [''Alice'', ''Bob'']"]
    assign_unassign_idempotent [of "''Bob''" "sample_item ''Pizza'' 15 [''Alice'']"]
  by (simp add: sample_item_def assign_to_def)

text \<open>The operations keep \<^verbatim>\<open>assigned_to\<close> free of duplicates, from the empty list on.\<close>

lemma new_ReceiptItem_distinct: "distinct (assigned_to (new_ReceiptItem n p q))"
  by (simp add: new_ReceiptItem_def)

lemma assign_to_distinct:
  "distinct (assigned_to item) \<Longrightarrow> distinct (assigned_to (assign_to p item))"
  by (simp add: assign_to_def)

lemma unassign_from_distinct:
  "distinct (assigned_to item) \<Longrightarrow> unassign_from p item = Inr item'
     \<Longrightarrow> distinct (assigned_to item')"
  by (auto simp: unassign_from_def list_remove_def split: if_splits)

subsection \<open>Texts to numbers\<close>

lemmas number_text_defs =
  cleaned_text_def py_float_def py_int_def int_max_str_digits_def is_digit_def
  digits_value_def digit_value_def

lemma cleaned_text_empty_float: "py_float (cleaned_text []) = Inl ValueError"
  by (simp add: cleaned_text_def py_float_def)

lemma filter_digits_all: "list_all is_digit (filter is_digit t)"
  by (simp add: list_all_iff)

text \<open>
  C5. \<^verbatim>\<open>_extract_price\<close> keeps the digits, points and minus signs of the text,
  reads what is left as a decimal number and gives 0.0 when that fails, as it does
  for the empty text; the five texts of the specification give the five amounts.
\<close>

theorem extract_price_spec:
  "extract_price t = (case py_float (cleaned_text t) of Inr v \<Rightarrow> v | Inl e \<Rightarrow> 0)
   \<and> cleaned_text t = filter (\<lambda>c. c \<in> set ''0123456789.-'') t
   \<and> extract_price ''$12.99'' = 1299 / 100
   \<and> extract_price ''1,234.56'' = 123456 / 100
   \<and> extract_price '''' = 0
   \<and> extract_price ''N/A'' = 0
   \<and> extract_price ''-5.00'' = - 5"
proof -
  have general: "extract_price t = (case py_float (cleaned_text t) of Inr v \<Rightarrow> v | Inl e \<Rightarrow> 0)"
    by (cases "t = []") (simp_all add: extract_price_def cleaned_text_empty_float)
  have kept: "cleaned_text t = filter (\<lambda>c. c \<in> set ''0123456789.-'') t"
    unfolding cleaned_text_def is_digit_def by (rule filter_cong) auto
  have e1: "extract_price ''$12.99'' = 1299 / 100"
    by (simp add: extract_price_def number_text_defs Let_def)
  have e2: "extract_price ''1,234.56'' = 123456 / 100"
    by (simp add: extract_price_def number_text_defs Let_def)
  have e3: "extract_price '''' = 0"
    by (simp add: extract_price_def)
  have e4: "extract_price ''N/A'' = 0"
    by (simp add: extract_price_def number_text_defs Let_def)
  have e5: "extract_price ''-5.00'' = - 5"
    by (simp add: extract_price_def number_text_defs Let_def)
  from general kept e1 e2 e3 e4 e5 show ?thesis by blast
qed

theorem extract_price_spec_witness:
  "cleaned_text ''USD 7.50 (incl.)'' = ''7.50.''
   \<and> py_float (cleaned_text ''USD 7.50 (incl.)'') = Inl ValueError
   \<and> extract_price ''USD 7.50 (incl.)'' = 0
   \<and> cleaned_text ''EUR 7.50'' = ''7.50''
   \<and> extract_price ''EUR 7.50'' = 15 / 2"
  using extract_price_spec [of "''USD 7.50 (incl.)''"] extract_price_spec [of "''EUR 7.50''"]
  by (simp add: number_text_defs Let_def)

text \<open>
  C6. The quantity text is reduced to its digits and read as an integer; the
  quantity is 1 when no digit is left and when reading fails, which happens only
  for more digits than \<^verbatim>\<open>int\<close> accepts.
\<close>

theorem extract_quantity_spec:
  "extract_quantity t =
     (if filter is_digit t = [] \<or> int_max_str_digits < length (filter is_digit t) then 1
      else int (digits_value (filter is_digit t)))
   \<and> (py_int (filter is_digit t) = Inl ValueError
        \<longleftrightarrow> filter is_digit t = [] \<or> int_max_str_digits < length (filter is_digit t))
   \<and> extract_quantity ''2x'' = 2
   \<and> extract_quantity '''' = 1
   \<and> extract_quantity ''abc'' = 1"
proof -
  have general: "extract_quantity t =
      (if filter is_digit t = [] \<or> int_max_str_digits < length (filter is_digit t) then 1
       else int (digits_value (filter is_digit t)))"
    by (simp add: extract_quantity_def Let_def py_int_def filter_digits_all)
  have fails: "py_int (filter is_digit t) = Inl ValueError
      \<longleftrightarrow> filter is_digit t = [] \<or> int_max_str_digits < length (filter is_digit t)"
    by (auto simp: py_int_def filter_digits_all)
  have e1: "extract_quantity ''2x'' = 2"
    by (simp add: extract_quantity_def number_text_defs Let_def)
  have e2: "extract_quantity '''' = 1"
    by (simp add: extract_quantity_def)
  have e3: "extract_quantity ''abc'' = 1"
    by (simp add: extract_quantity_def number_text_defs Let_def)
  from general fails e1 e2 e3 show ?thesis by blast
qed

theorem extract_quantity_spec_witness:
  "filter is_digit ''12 pcs'' = ''12'' \<and> py_int (filter is_digit ''12 pcs'') = Inr 12
   \<and> extract_quantity ''12 pcs'' = 12"
  using extract_quantity_spec [of "''12 pcs''"]
  by (simp add: number_text_defs)

subsection \<open>The normalizer\<close>

lemma summary_fold_items: "items (foldl summary_field_step r fs) = items r"
  by (induction fs arbitrary: r) (simp_all add: summary_field_step_def)

lemma latest_subtotal_snoc:
  "latest_subtotal s (fs @ [f]) =
     (if Type_Text f = Some ''SUBTOTAL'' then extract_price (value_text f ''0.0'')
      else latest_subtotal s fs)"
  by (simp add: latest_subtotal_def)

lemma latest_subtotal_append:
  "latest_subtotal s (fs @ gs) = latest_subtotal (latest_subtotal s fs) gs"
  by (induction gs rule: rev_induct)
     (simp_all add: latest_subtotal_snoc latest_subtotal_def flip: append_assoc)

lemma summary_fold_subtotal:
  "subtotal (foldl summary_field_step r fs) = latest_subtotal (subtotal r) fs"
proof (induction fs rule: rev_induct)
  case Nil
  show ?case by (simp add: latest_subtotal_def)
next
  case (snoc f fs)
  then show ?case
    by (simp add: latest_subtotal_snoc summary_field_step_def)
qed

lemma line_item_step_items:
  "items (line_item_step r li) = items r @ map item_of (filter accepted [li])"
  by (simp add: line_item_step_def Let_def accepted_def item_of_def add_item_def)

lemma line_item_step_subtotal: "subtotal (line_item_step r li) = subtotal r"
  by (simp add: line_item_step_def Let_def add_item_def)

lemma line_items_fold_items:
  "items (foldl line_item_step r lis) = items r @ map item_of (filter accepted lis)"
  by (induction lis arbitrary: r) (simp_all add: line_item_step_items)

lemma line_items_fold_subtotal: "subtotal (foldl line_item_step r lis) = subtotal r"
  by (induction lis arbitrary: r) (simp_all add: line_item_step_subtotal)

lemma group_step_items:
  "items (group_step r g) = items r @ map item_of (filter accepted (group_line_items g))"
  by (cases g) (simp_all add: group_step_def group_line_items_def line_items_fold_items)

lemma group_step_subtotal: "subtotal (group_step r g) = subtotal r"
  by (cases g) (simp_all add: group_step_def line_items_fold_subtotal)

lemma groups_fold_items:
  "items (foldl group_step r gs)
     = items r @ map item_of (filter accepted (concat (map group_line_items gs)))"
  by (induction gs arbitrary: r) (simp_all add: group_step_items)

lemma groups_fold_subtotal: "subtotal (foldl group_step r gs) = subtotal r"
  by (induction gs arbitrary: r) (simp_all add: group_step_subtotal)

lemma document_step_items:
  "items (document_step r doc)
     = items r @ map item_of (filter accepted (document_line_items doc))"
  by (cases "SummaryFields doc"; cases "LineItemGroups doc")
     (simp_all add: document_step_def document_line_items_def groups_fold_items
        summary_fold_items)

lemma document_step_subtotal:
  "subtotal (document_step r doc) = latest_subtotal (subtotal r) (document_summary_fields doc)"
  by (cases "SummaryFields doc"; cases "LineItemGroups doc")
     (simp_all add: document_step_def document_summary_fields_def groups_fold_subtotal
        summary_fold_subtotal latest_subtotal_def)

lemma documents_fold_items:
  "items (foldl document_step r docs)
     = items r @ map item_of (filter accepted (concat (map document_line_items docs)))"
  by (induction docs arbitrary: r) (simp_all add: document_step_items)

lemma documents_fold_subtotal:
  "subtotal (foldl document_step r docs)
     = latest_subtotal (subtotal r) (concat (map document_summary_fields docs))"
proof (induction docs arbitrary: r)
  case Nil
  show ?case by (simp add: latest_subtotal_def)
next
  case (Cons doc docs)
  then show ?case
    by (simp add: document_step_subtotal latest_subtotal_append)
qed

lemma scan_documents_items:
  "items (scan_documents response) = map item_of (filter accepted (all_line_items response))"
  by (cases response)
     (simp_all add: scan_documents_def all_line_items_def documents_fold_items new_Receipt_def)

lemma scan_documents_subtotal: "subtotal (scan_documents response) = found_subtotal response"
  by (cases response)
     (simp_all add: scan_documents_def found_subtotal_def all_summary_fields_def
        documents_fold_subtotal new_Receipt_def latest_subtotal_def)

lemma parse_items: "items (parse_textract_response response) = items (scan_documents response)"
  by (simp add: parse_textract_response_def Let_def)

subsection \<open>A sample response\<close>

lemma sample_line_items:
  "all_line_items (sample_response extra qty)
     = [Some [sample_field ''ITEM'' ''Cola'', sample_field ''PRICE'' ''$1.50'',
              sample_field ''QUANTITY'' qty],
        Some [sample_field ''ITEM'' ''Water'', sample_field ''PRICE'' ''0.00''],
        Some [sample_field ''PRICE'' ''2.25''],
        Some [sample_field ''ITEM'' ''Tea'', sample_field ''PRICE'' ''2.25'',
              sample_field ''QUANTITY'' ''2x'']]"
  by (simp add: all_line_items_def document_line_items_def group_line_items_def
      sample_response_def)

lemma extract_quantity_2x: "extract_quantity ''2x'' = 2"
  by (simp add: extract_quantity_def number_text_defs Let_def)

lemma sample_locals:
  "line_item_locals (Some [sample_field ''ITEM'' ''Cola'', sample_field ''PRICE'' ''$1.50'',
                           sample_field ''QUANTITY'' qty])
     = \<lparr>item_name = ''Cola'', item_price = 3 / 2, item_quantity = extract_quantity qty\<rparr>"
  "line_item_locals (Some [sample_field ''ITEM'' ''Water'', sample_field ''PRICE'' ''0.00''])
     = \<lparr>item_name = ''Water'', item_price = 0, item_quantity = 1\<rparr>"
  "line_item_locals (Some [sample_field ''PRICE'' ''2.25''])
     = \<lparr>item_name = [], item_price = 9 / 4, item_quantity = 1\<rparr>"
  "line_item_locals (Some [sample_field ''ITEM'' ''Tea'', sample_field ''PRICE'' ''2.25'',
                           sample_field ''QUANTITY'' ''2x''])
     = \<lparr>item_name = ''Tea'', item_price = 9 / 4, item_quantity = 2\<rparr>"
  by (simp_all add: sample_field_def line_item_locals_def line_field_step_def value_text_def
      initial_locals_def extract_price_def number_text_defs Let_def extract_quantity_2x)

lemma sample_items:
  "items (parse_textract_response (sample_response extra qty))
     = [new_ReceiptItem ''Cola'' (3 / 2) (extract_quantity qty),
        new_ReceiptItem ''Tea'' (9 / 4) 2]"
  by (simp add: parse_items scan_documents_items sample_line_items accepted_def item_of_def
      sample_locals)

lemma sample_found_subtotal:
  "found_subtotal (sample_response [] qty) = 0"
  "found_subtotal (sample_response [sample_field ''SUBTOTAL'' ''$45.00''] qty) = 45"
  by (simp_all add: found_subtotal_def latest_subtotal_def all_summary_fields_def
      document_summary_fields_def sample_response_def sample_field_def value_text_def
      extract_price_def number_text_defs Let_def)

lemma name_item_of: "name (item_of li) = item_name (line_item_locals li)"
  by (simp add: item_of_def new_ReceiptItem_def)

lemma price_item_of: "price (item_of li) = item_price (line_item_locals li)"
  by (simp add: item_of_def new_ReceiptItem_def)

text \<open>
  C4. The items of the parsed receipt are exactly the line items of the response,
  in order, whose parsed name is non-empty and whose parsed price is strictly
  positive: such a line item is added, any other is not, and so every item of
  the receipt has a name and a positive price.
\<close>

theorem discard_rule:
  "items (parse_textract_response response)
     = map item_of
         (filter (\<lambda>li. item_name (line_item_locals li) \<noteq> []
                       \<and> 0 < item_price (line_item_locals li))
                 (all_line_items response))
   \<and> (\<forall>li \<in> set (all_line_items response).
         item_of li \<in> set (items (parse_textract_response response))
           \<longleftrightarrow> item_name (line_item_locals li) \<noteq> [] \<and> 0 < item_price (line_item_locals li))
   \<and> (\<forall>item \<in> set (items (parse_textract_response response)).
         name item \<noteq> [] \<and> 0 < price item)"
proof -
  have eq: "items (parse_textract_response response)
      = map item_of (filter accepted (all_line_items response))"
    by (simp add: parse_items scan_documents_items)
  have accepted_fun: "accepted = (\<lambda>li. item_name (line_item_locals li) \<noteq> []
                                    \<and> 0 < item_price (line_item_locals li))"
    by (simp add: fun_eq_iff accepted_def)
  have same: "accepted li' = accepted li" if "item_of li' = item_of li" for li li'
  proof -
    from that have "price (item_of li') = price (item_of li)"
      and "name (item_of li') = name (item_of li)"
      by simp_all
    then show ?thesis
      by (simp add: price_item_of name_item_of accepted_def)
  qed
  have member: "item_of li \<in> set (items (parse_textract_response response)) \<longleftrightarrow> accepted li"
    if "li \<in> set (all_line_items response)" for li
  proof
    assume "item_of li \<in> set (items (parse_textract_response response))"
    then obtain li' where "accepted li'" and "item_of li' = item_of li"
      by (auto simp: eq)
    then show "accepted li"
      using same [of li' li] by simp
  next
    assume "accepted li"
    with that show "item_of li \<in> set (items (parse_textract_response response))"
      by (simp add: eq)
  qed
  have kept: "name item \<noteq> [] \<and> 0 < price item"
    if "item \<in> set (items (parse_textract_response response))" for item
  proof -
    from that obtain li where "accepted li" and "item = item_of li"
      by (auto simp: eq)
    then show ?thesis
      by (simp add: price_item_of name_item_of accepted_def)
  qed
  show ?thesis
  proof (intro conjI ballI)
    show "items (parse_textract_response response)
        = map item_of
            (filter (\<lambda>li. item_name (line_item_locals li) \<noteq> []
                          \<and> 0 < item_price (line_item_locals li))
                    (all_line_items response))"
      using eq by (simp add: accepted_fun)
  next
    fix li
    assume "li \<in> set (all_line_items response)"
    then show "item_of li \<in> set (items (parse_textract_response response))
        \<longleftrightarrow> item_name (line_item_locals li) \<noteq> [] \<and> 0 < item_price (line_item_locals li)"
      using member [of li] by (simp add: accepted_def)
  next
    fix item
    assume "item \<in> set (items (parse_textract_response response))"
    then show "name item \<noteq> []" and "0 < price item"
      using kept [of item] by simp_all
  qed
qed

theorem discard_rule_witness:
  "Some [sample_field ''ITEM'' ''Water'', sample_field ''PRICE'' ''0.00'']
     \<in> set (all_line_items (sample_response [] ''3''))
   \<and> item_of (Some [sample_field ''ITEM'' ''Water'', sample_field ''PRICE'' ''0.00''])
     \<notin> set (items (parse_textract_response (sample_response [] ''3'')))
   \<and> Some [sample_field ''PRICE'' ''2.25'']
     \<in> set (all_line_items (sample_response [] ''3''))
   \<and> item_of (Some [sample_field ''PRICE'' ''2.25''])
     \<notin> set (items (parse_textract_response (sample_response [] ''3'')))
   \<and> Some [sample_field ''ITEM'' ''Tea'', sample_field ''PRICE'' ''2.25'',
            sample_field ''QUANTITY'' ''2x'']
     \<in> set (all_line_items (sample_response [] ''3''))
   \<and> item_of (Some [sample_field ''ITEM'' ''Tea'', sample_field ''PRICE'' ''2.25'',
                     sample_field ''QUANTITY'' ''2x''])
     \<in> set (items (parse_textract_response (sample_response [] ''3'')))
   \<and> map name (items (parse_textract_response (sample_response [] ''3''))) = [''Cola'', ''Tea'']"
proof -
  let ?r = "sample_response [] ''3''"
  let ?water = "Some [sample_field ''ITEM'' ''Water'', sample_field ''PRICE'' ''0.00'']"
  let ?nameless = "Some [sample_field ''PRICE'' ''2.25'']"
  let ?tea = "Some [sample_field ''ITEM'' ''Tea'', sample_field ''PRICE'' ''2.25'',
                    sample_field ''QUANTITY'' ''2x'']"
  note eq = discard_rule [of ?r, THEN conjunct1]
  note member = discard_rule [of ?r, THEN conjunct2, THEN conjunct1]
  have water: "?water \<in> set (all_line_items ?r)"
    and nameless: "?nameless \<in> set (all_line_items ?r)"
    and tea: "?tea \<in> set (all_line_items ?r)"
    by (simp_all add: sample_line_items)
  have no_water: "item_of ?water \<notin> set (items (parse_textract_response ?r))"
    by (simp only: bspec [OF member water] sample_locals) simp
  have no_nameless: "item_of ?nameless \<notin> set (items (parse_textract_response ?r))"
    by (simp only: bspec [OF member nameless] sample_locals) simp
  have yes_tea: "item_of ?tea \<in> set (items (parse_textract_response ?r))"
    by (simp only: bspec [OF member tea] sample_locals) simp
  have names: "map name (items (parse_textract_response ?r)) = [''Cola'', ''Tea'']"
    by (simp add: eq sample_line_items sample_locals item_of_def new_ReceiptItem_def)
  from water no_water nameless no_nameless tea yes_tea names show ?thesis
    by (intro conjI)
qed

text \<open>
  C7. When the loop over the documents has ended, a subtotal of exactly zero with
  at least one item added becomes the sum of the prices of the added items, the
  quantities left out; otherwise the subtotal stays. The subtotal the loop leaves
  is that of the last \<^verbatim>\<open>SUBTOTAL\<close> summary field, 0 without one, and the items are
  not touched by the fallback.
\<close>

theorem subtotal_fallback:
  "subtotal (parse_textract_response response)
     = (if subtotal (scan_documents response) = 0 \<and> items (scan_documents response) \<noteq> []
        then sum_list (map price (items (scan_documents response)))
        else subtotal (scan_documents response))
   \<and> items (parse_textract_response response) = items (scan_documents response)
   \<and> subtotal (scan_documents response) = found_subtotal response
   \<and> sum_list (map price (items (scan_documents response)))
       = sum_list (map (\<lambda>li. item_price (line_item_locals li))
                       (filter accepted (all_line_items response)))"
  by (simp add: parse_textract_response_def Let_def scan_documents_subtotal
      scan_documents_items comp_def price_item_of)

theorem subtotal_fallback_witness:
  "found_subtotal (sample_response [] ''3'') = 0
   \<and> map quantity (items (parse_textract_response (sample_response [] ''3''))) = [3, 2]
   \<and> subtotal (parse_textract_response (sample_response [] ''3'')) = 3 / 2 + 9 / 4
   \<and> found_subtotal (sample_response [sample_field ''SUBTOTAL'' ''$45.00''] ''3'') = 45
   \<and> subtotal (parse_textract_response
                  (sample_response [sample_field ''SUBTOTAL'' ''$45.00''] ''3'')) = 45"
proof -
  have q: "extract_quantity ''3'' = 3"
    by (simp add: extract_quantity_def number_text_defs Let_def)
  have i: "items (scan_documents (sample_response extra ''3''))
      = [new_ReceiptItem ''Cola'' (3 / 2) 3, new_ReceiptItem ''Tea'' (9 / 4) 2]" for extra
    using sample_items [of extra "''3''"] by (simp add: parse_items q)
  show ?thesis
    using subtotal_fallback [of "sample_response [] ''3''"]
      subtotal_fallback [of "sample_response [sample_field ''SUBTOTAL'' ''$45.00''] ''3''"]
    by (simp add: i sample_found_subtotal new_ReceiptItem_def)
qed

text \<open>
  C9 fails for a quantity text whose digits denote zero: the source keeps the 0
  that \<^verbatim>\<open>int\<close> returns, since \<^verbatim>\<open>or 1\<close> only replaces the empty string.
\<close>

theorem zero_quantity_item:
  "items (parse_textract_response (sample_response [] ''0''))
     = [\<lparr>name = ''Cola'', price = 3 / 2, quantity = 0, assigned_to = []\<rparr>,
        \<lparr>name = ''Tea'', price = 9 / 4, quantity = 2, assigned_to = []\<rparr>]"
proof -
  have "extract_quantity ''0'' = 0"
    by (simp add: extract_quantity_def number_text_defs Let_def)
  then show ?thesis
    by (simp add: sample_items new_ReceiptItem_def)
qed

text \<open>What does hold of the quantity: it is never negative, and it is at least 1 unless
  the text has digits and they denote zero; the default constructor gives 1.\<close>

lemma extract_quantity_bounds:
  "0 \<le> extract_quantity t"
  "filter is_digit t = [] \<or> digits_value (filter is_digit t) \<noteq> 0 \<Longrightarrow> 1 \<le> extract_quantity t"
  by (auto simp: extract_quantity_def Let_def py_int_def)

lemma default_quantity: "quantity (new_ReceiptItem_default n p) = 1"
  by (simp add: new_ReceiptItem_default_def new_ReceiptItem_def)

subsection \<open>The iterations of \<^verbatim>\<open>get_person_totals\<close>\<close>

lemma person_step_eq:
  "person_step item st p =
     Inr (st\<lparr>person_totals := credit (share_of item) (person_totals st) p\<rparr>)"
  by (cases "map_of (person_totals st) p")
     (simp_all add: person_step_def Let_def dict_contains_def dict_getitem_def dict_setitem_def
        price_per_person_share lookup0_def update_conv' credit_def)

lemma foldl_frame:
  "foldl (\<lambda>st x. st\<lparr>person_totals := f (person_totals st) x\<rparr>) st xs
     = st\<lparr>person_totals := foldl f (person_totals st) xs\<rparr>"
  by (induction xs arbitrary: st) simp_all

lemma item_step_eq:
  "item_step st item = Inr (st\<lparr>person_totals := credit_item (person_totals st) item\<rparr>)"
  unfolding item_step_def credit_item_def
  by (subst for_each_total
        [where g = "\<lambda>st p. st\<lparr>person_totals := credit (share_of item) (person_totals st) p\<rparr>"])
     (simp_all add: person_step_eq foldl_frame)

lemma items_loop_eq:
  "for_each item_step its st
     = Inr (st\<lparr>person_totals := foldl credit_item (person_totals st) its\<rparr>)"
  by (subst for_each_total
        [where g = "\<lambda>st item. st\<lparr>person_totals := credit_item (person_totals st) item\<rparr>"])
     (simp_all add: item_step_eq foldl_frame)

lemma surcharge_step_eq:
  assumes "map_of (person_totals st) p = Some v" and "subtotal (self st) \<noteq> 0"
  shows "surcharge_step st p =
     Inr (st\<lparr>person_totals :=
            AList.update p (with_surcharge (self st) v) (person_totals st)\<rparr>)"
  using assms
  by (simp add: surcharge_step_def dict_getitem_def dict_setitem_def py_truediv_def
      with_surcharge_def)

lemma update_after_prefix:
  "k \<notin> fst ` set pre \<Longrightarrow> AList.update k v (pre @ q) = pre @ AList.update k v q"
  by (induction pre) auto

lemma map_of_after_prefix:
  "k \<notin> fst ` set pre \<Longrightarrow> map_of (pre @ q) k = map_of q k"
  by (induction pre) auto

lemma surcharge_loop_eq:
  assumes "subtotal (self st) \<noteq> 0"
  shows "distinct (map fst (pre @ suf)) \<Longrightarrow> person_totals st = pre @ suf \<Longrightarrow>
     for_each surcharge_step (map fst suf) st
       = Inr (st\<lparr>person_totals :=
                pre @ map (\<lambda>(k, v). (k, with_surcharge (self st) v)) suf\<rparr>)"
  using assms
proof (induction suf arbitrary: pre st)
  case Nil
  then show ?case by simp
next
  case (Cons kv suf)
  obtain k v where kv: "kv = (k, v)" by (cases kv)
  from Cons.prems kv have fresh: "k \<notin> fst ` set pre"
    by auto
  let ?st' = "st\<lparr>person_totals := pre @ (k, with_surcharge (self st) v) # suf\<rparr>"
  have found: "map_of (person_totals st) k = Some v"
    using map_of_after_prefix [OF fresh, of "(k, v) # suf"] Cons.prems kv by simp
  have step: "surcharge_step st k = Inr ?st'"
    using Cons.prems kv update_after_prefix [OF fresh, of _ "(k, v) # suf"]
    by (simp add: surcharge_step_eq [OF found])
  have rest: "for_each surcharge_step (map fst suf) ?st'
      = Inr (?st'\<lparr>person_totals :=
               (pre @ [(k, with_surcharge (self st) v)])
                 @ map (\<lambda>(k, v). (k, with_surcharge (self ?st') v)) suf\<rparr>)"
    using Cons.prems kv by (intro Cons.IH) auto
  show ?case
    using step rest kv by simp
qed

lemma credit_keys: "map fst (credit x d p) = (if p \<in> fst ` set d then map fst d else map fst d @ [p])"
  by (simp add: credit_def update_keys)

lemma credit_distinct: "distinct (map fst d) \<Longrightarrow> distinct (map fst (credit x d p))"
  by (simp add: credit_def distinct_update)

lemma credit_all_distinct:
  "distinct (map fst d) \<Longrightarrow> distinct (map fst (foldl (credit x) d ps))"
  by (induction ps arbitrary: d) (simp_all add: credit_distinct)

lemma credit_item_distinct: "distinct (map fst d) \<Longrightarrow> distinct (map fst (credit_item d item))"
  by (simp add: credit_item_def credit_all_distinct)

lemma base_totals_distinct:
  "distinct (map fst d) \<Longrightarrow> distinct (map fst (foldl credit_item d its))"
  by (induction its arbitrary: d) (simp_all add: credit_item_distinct)

text \<open>The method as a function of the receipt: it always returns, with the receiver as it was.\<close>

lemma get_person_totals_eq:
  "get_person_totals r =
     Inr (if 0 < subtotal r
          then map (\<lambda>(k, v). (k, with_surcharge r v)) (foldl credit_item [] (items r))
          else foldl credit_item [] (items r), r)"
proof (cases "0 < subtotal r")
  case False
  then show ?thesis
    by (simp add: get_person_totals_def items_loop_eq)
next
  case True
  let ?st = "\<lparr>self = r, person_totals = foldl credit_item [] (items r)\<rparr>"
  have "distinct (map fst ([] @ foldl credit_item [] (items r)))"
    by (simp add: base_totals_distinct)
  moreover have "subtotal (self ?st) \<noteq> 0" and "person_totals ?st = [] @ person_totals ?st"
    using True by simp_all
  ultimately have "for_each surcharge_step (map fst (foldl credit_item [] (items r))) ?st
      = Inr (?st\<lparr>person_totals :=
               [] @ map (\<lambda>(k, v). (k, with_surcharge (self ?st) v))
                        (foldl credit_item [] (items r))\<rparr>)"
    by (intro surcharge_loop_eq) simp_all
  with True show ?thesis
    by (simp add: get_person_totals_def items_loop_eq dict_keys_def)
qed

subsection \<open>The sum of the amounts owed\<close>








lemmas sample_totals_defs =
  get_person_totals_eq sample_receipt_def sample_item_def credit_item_def credit_def
  lookup0_def share_of_def with_surcharge_def


subsection \<open>The amount owed by each participant\<close>

lemma lookup0_Nil: "lookup0 [] k = 0"
  by (simp add: lookup0_def)

lemma lookup0_credit: "lookup0 (credit x d p) q = lookup0 d q + (if q = p then x else 0)"
  by (simp add: credit_def lookup0_def update_conv')

lemma keys_credit: "fst ` set (credit x d p) = insert p (fst ` set d)"
  by (simp add: credit_def dom_update)

lemma lookup0_credit_all:
  "distinct ps \<Longrightarrow>
     lookup0 (foldl (credit x) d ps) q = lookup0 d q + (if q \<in> set ps then x else 0)"
  by (induction ps arbitrary: d) (auto simp: lookup0_credit)

lemma keys_credit_all: "fst ` set (foldl (credit x) d ps) = fst ` set d \<union> set ps"
  by (induction ps arbitrary: d) (auto simp: keys_credit)

lemma lookup0_credit_item:
  "distinct (assigned_to item) \<Longrightarrow>
     lookup0 (credit_item d item) q
       = lookup0 d q + (if q \<in> set (assigned_to item) then share_of item else 0)"
  by (simp add: credit_item_def lookup0_credit_all)

lemma keys_credit_item:
  "fst ` set (credit_item d item) = fst ` set d \<union> set (assigned_to item)"
  by (simp add: credit_item_def keys_credit_all)

lemma lookup0_base_totals:
  "\<forall>item \<in> set its. distinct (assigned_to item) \<Longrightarrow>
     lookup0 (foldl credit_item d its) q
       = lookup0 d q
         + sum_list (map share_of (filter (\<lambda>item. q \<in> set (assigned_to item)) its))"
  by (induction its arbitrary: d) (simp_all add: lookup0_credit_item)

lemma keys_base_totals:
  "fst ` set (foldl credit_item d its) = fst ` set d \<union> set (concat (map assigned_to its))"
  by (induction its arbitrary: d) (auto simp: keys_credit_item)

lemma map_of_lookup0: "p \<in> fst ` set d \<Longrightarrow> map_of d p = Some (lookup0 d p)"
  by (cases "map_of d p") (auto simp: lookup0_def map_of_eq_None_iff)

text \<open>
  C3. With a subtotal of zero, whatever the tax and the tip,
  \<^verbatim>\<open>get_person_totals()\<close> returns, for exactly the participants assigned to some
  item, the base share: the sum of \<^verbatim>\<open>price_per_person()\<close> over the items the
  participant is assigned to. The call returns (no division by zero), and the
  price per person of an unassigned item is 0. Each \<^verbatim>\<open>assigned_to\<close> holds a
  participant once, as \<^verbatim>\<open>assign_to\<close> keeps it.
\<close>

theorem zero_subtotal_base_shares:
  assumes "subtotal r = 0"
    and "\<forall>item \<in> set (items r). distinct (assigned_to item)"
  shows "(\<exists>totals. get_person_totals r = Inr (totals, r)
            \<and> distinct (dict_keys totals)
            \<and> set (dict_keys totals) = participants r
            \<and> (\<forall>p \<in> participants r. map_of totals p = Some (base_share r p)))
         \<and> (\<forall>item \<in> set (items r). price_per_person item = Inr (share_of item)
                \<and> (assigned_to item = [] \<longrightarrow> share_of item = 0))"
proof -
  let ?base = "foldl credit_item [] (items r)"
  have returned: "get_person_totals r = Inr (?base, r)"
    using assms(1) by (simp add: get_person_totals_eq)
  have keys: "set (dict_keys ?base) = participants r"
    by (simp add: dict_keys_def keys_base_totals participants_def)
  have one_each: "distinct (dict_keys ?base)"
    by (simp add: dict_keys_def base_totals_distinct)
  have share: "map_of ?base p = Some (base_share r p)" if "p \<in> participants r" for p
  proof -
    from that keys have "p \<in> fst ` set ?base"
      by (simp add: dict_keys_def)
    then have "map_of ?base p = Some (lookup0 ?base p)"
      by (rule map_of_lookup0)
    also have "lookup0 ?base p = base_share r p"
      using assms(2) by (simp add: lookup0_base_totals base_share_def lookup0_Nil)
    finally show ?thesis .
  qed
  have unassigned: "price_per_person item = Inr (share_of item)
      \<and> (assigned_to item = [] \<longrightarrow> share_of item = 0)" for item
    by (simp add: price_per_person_share share_of_def)
  from returned keys one_each share unassigned show ?thesis
    by blast
qed

theorem zero_subtotal_base_shares_witness:
  "subtotal (sample_receipt 0 (360 / 100) 5) = 0
   \<and> list_all (\<lambda>item. distinct (assigned_to item)) (items (sample_receipt 0 (360 / 100) 5))
   \<and> get_person_totals (sample_receipt 0 (360 / 100) 5)
       = Inr ([(''Alice'', 2074 / 100), (''Bob'', 1674 / 100)], sample_receipt 0 (360 / 100) 5)
   \<and> base_share (sample_receipt 0 (360 / 100) 5) ''Alice'' = 1299 / 100 + 775 / 100
   \<and> base_share (sample_receipt 0 (360 / 100) 5) ''Bob'' = 775 / 100 + 899 / 100"
proof -
  let ?r = "sample_receipt 0 (360 / 100) 5"
  have zero: "subtotal ?r = 0"
    and once: "\<forall>item \<in> set (items ?r). distinct (assigned_to item)"
    by (simp_all add: sample_receipt_def sample_item_def)
  note rule = zero_subtotal_base_shares [OF zero once]
  have returned: "get_person_totals ?r
      = Inr ([(''Alice'', 2074 / 100), (''Bob'', 1674 / 100)], ?r)"
    using rule by (simp add: sample_totals_defs)
  have alice: "base_share ?r ''Alice'' = 1299 / 100 + 775 / 100"
    and bob: "base_share ?r ''Bob'' = 775 / 100 + 899 / 100"
    by (simp_all add: base_share_def sample_receipt_def sample_item_def share_of_def)
  from once have "list_all (\<lambda>item. distinct (assigned_to item)) (items ?r)"
    by (simp add: list_all_iff)
  with zero returned alice bob show ?thesis
    by (intro conjI)
qed

subsection \<open>The receipt after the call\<close>

text \<open>
  C10. \<^verbatim>\<open>get_person_totals()\<close> returns, and the receipt after the call is the
  receipt before it: the items with their names, prices, quantities and
  assignments, and the date, vendor, subtotal, tax and tip. So a second call
  returns the same dictionary and again leaves the receipt as it was.
\<close>

theorem get_person_totals_frame:
  "(\<exists>totals. get_person_totals r = Inr (totals, r))
   \<and> (\<forall>totals1 r1 totals2 r2.
        get_person_totals r = Inr (totals1, r1) \<and> get_person_totals r1 = Inr (totals2, r2)
          \<longrightarrow> r1 = r \<and> r2 = r \<and> totals2 = totals1
              \<and> items r1 = items r \<and> map assigned_to (items r1) = map assigned_to (items r)
              \<and> date r1 = date r \<and> restaurant_name r1 = restaurant_name r
              \<and> subtotal r1 = subtotal r \<and> tax r1 = tax r \<and> tip r1 = tip r)"
proof (intro conjI allI impI)
  show "\<exists>totals. get_person_totals r = Inr (totals, r)"
    by (simp add: get_person_totals_eq)
next
  fix totals1 r1 totals2 r2
  assume calls: "get_person_totals r = Inr (totals1, r1) \<and> get_person_totals r1 = Inr (totals2, r2)"
  then have call1: "get_person_totals r = Inr (totals1, r1)"
    and call2: "get_person_totals r1 = Inr (totals2, r2)"
    by simp_all
  from call1 have first: "r1 = r"
    by (simp add: get_person_totals_eq)
  from call1 call2 first
  have "(Inr (totals2, r2) :: py_error + real pydict \<times> Receipt) = Inr (totals1, r1)"
    by simp
  then have "r2 = r1" and "totals2 = totals1"
    by simp_all
  with first show "r1 = r" and "r2 = r" and "totals2 = totals1"
    and "items r1 = items r" and "map assigned_to (items r1) = map assigned_to (items r)"
    and "date r1 = date r" and "restaurant_name r1 = restaurant_name r"
    and "subtotal r1 = subtotal r" and "tax r1 = tax r" and "tip r1 = tip r"
    by simp_all
qed

theorem get_person_totals_frame_witness:
  "get_person_totals (sample_receipt 45 (360 / 100) 0)
     = Inr ([(''Alice'', 223992 / 10000), (''Bob'', 180792 / 10000)],
            sample_receipt 45 (360 / 100) 0)
   \<and> bind_err (get_person_totals (sample_receipt 45 (360 / 100) 0))
        (\<lambda>(totals1, r1). get_person_totals r1)
     = Inr ([(''Alice'', 223992 / 10000), (''Bob'', 180792 / 10000)],
            sample_receipt 45 (360 / 100) 0)"
proof -
  let ?r = "sample_receipt 45 (360 / 100) 0"
  let ?totals = "[(''Alice'', 223992 / 10000), (''Bob'', 180792 / 10000 :: real)]"
  have once: "get_person_totals ?r = Inr (?totals, ?r)"
    by (simp add: sample_totals_defs)
  from get_person_totals_frame [of ?r]
  have "get_person_totals ?r = Inr (?totals, ?r) \<and> get_person_totals ?r = Inr (?totals, ?r)
      \<longrightarrow> ?r = ?r \<and> ?totals = ?totals"
    by blast
  with once show ?thesis
    by simp
qed

section \<open>Further properties\<close>

subsection \<open>The amount owed, for any subtotal\<close>

lemma map_of_surcharged:
  "map_of (map (\<lambda>(k, v). (k, with_surcharge r v)) d) p
     = map_option (with_surcharge r) (map_of d p)"
  by (induction d) auto

lemma keys_surcharged: "map fst (map (\<lambda>(k, v). (k, with_surcharge r v)) d) = map fst d"
  by (induction d) auto

text \<open>
  \<^verbatim>\<open>get_person_totals()\<close> returns one amount for each participant assigned to
  some item and for nobody else: the base share, to which a positive subtotal
  adds the participant's part of tax and tip, in proportion of the base share to
  the subtotal.
\<close>

theorem person_totals_formula:
  assumes "\<forall>item \<in> set (items r). distinct (assigned_to item)"
  shows "\<exists>totals. get_person_totals r = Inr (totals, r)
           \<and> distinct (dict_keys totals)
           \<and> set (dict_keys totals) = participants r
           \<and> (\<forall>p \<in> participants r.
                 map_of totals p
                   = Some (if 0 < subtotal r
                           then base_share r p + (tax r + tip r) * (base_share r p / subtotal r)
                           else base_share r p))"
proof -
  let ?base = "foldl credit_item [] (items r)"
  let ?totals = "if 0 < subtotal r then map (\<lambda>(k, v). (k, with_surcharge r v)) ?base else ?base"
  have returned: "get_person_totals r = Inr (?totals, r)"
    by (simp add: get_person_totals_eq)
  have keys: "dict_keys ?totals = map fst ?base"
    by (auto simp: dict_keys_def)
  have people: "set (dict_keys ?totals) = participants r"
    by (simp add: keys keys_base_totals participants_def)
  have one_each: "distinct (dict_keys ?totals)"
    by (simp add: keys base_totals_distinct)
  have amount: "map_of ?totals p
      = Some (if 0 < subtotal r
              then base_share r p + (tax r + tip r) * (base_share r p / subtotal r)
              else base_share r p)"
    if "p \<in> participants r" for p
  proof -
    from that have "p \<in> fst ` set ?base"
      by (simp add: keys_base_totals participants_def)
    then have "map_of ?base p = Some (lookup0 ?base p)"
      by (rule map_of_lookup0)
    moreover have "lookup0 ?base p = base_share r p"
      using assms by (simp add: lookup0_base_totals base_share_def lookup0_Nil)
    ultimately have base: "map_of ?base p = Some (base_share r p)"
      by simp
    show ?thesis
    proof (cases "0 < subtotal r")
      case True
      with base have "map_of ?totals p = Some (with_surcharge r (base_share r p))"
        by (simp add: map_of_surcharged)
      with True show ?thesis
        by (simp add: with_surcharge_def)
    next
      case False
      with base show ?thesis
        by simp
    qed
  qed
  show ?thesis
  proof (intro exI [of _ "?totals"] conjI ballI)
    show "get_person_totals r = Inr (?totals, r)"
      by (rule returned)
    show "distinct (dict_keys ?totals)"
      by (rule one_each)
    show "set (dict_keys ?totals) = participants r"
      by (rule people)
    fix p
    assume "p \<in> participants r"
    then show "map_of ?totals p
        = Some (if 0 < subtotal r
                then base_share r p + (tax r + tip r) * (base_share r p / subtotal r)
                else base_share r p)"
      by (rule amount)
  qed
qed

theorem person_totals_formula_witness:
  "list_all (\<lambda>item. distinct (assigned_to item)) (items (sample_receipt 45 (360 / 100) 0))
   \<and> participants (sample_receipt 45 (360 / 100) 0) = {''Alice'', ''Bob''}
   \<and> base_share (sample_receipt 45 (360 / 100) 0) ''Alice'' = 2074 / 100
   \<and> base_share (sample_receipt 45 (360 / 100) 0) ''Bob'' = 1674 / 100
   \<and> get_person_totals (sample_receipt 45 (360 / 100) 0)
       = Inr ([(''Alice'', 2074 / 100 + (360 / 100 + 0) * (2074 / 100 / 45)),
               (''Bob'', 1674 / 100 + (360 / 100 + 0) * (1674 / 100 / 45))],
              sample_receipt 45 (360 / 100) 0)"
proof -
  let ?r = "sample_receipt 45 (360 / 100) 0"
  have once: "\<forall>item \<in> set (items ?r). distinct (assigned_to item)"
    by (simp add: sample_receipt_def sample_item_def)
  note rule = person_totals_formula [OF once]
  have people: "participants ?r = {''Alice'', ''Bob''}"
    by (auto simp: participants_def sample_receipt_def sample_item_def)
  have alice: "base_share ?r ''Alice'' = 2074 / 100"
    and bob: "base_share ?r ''Bob'' = 1674 / 100"
    by (simp_all add: base_share_def sample_receipt_def sample_item_def share_of_def)
  have returned: "get_person_totals ?r
      = Inr ([(''Alice'', 2074 / 100 + (360 / 100 + 0) * (2074 / 100 / 45)),
              (''Bob'', 1674 / 100 + (360 / 100 + 0) * (1674 / 100 / 45))], ?r)"
    by (simp add: sample_totals_defs)
  from once have "list_all (\<lambda>item. distinct (assigned_to item)) (items ?r)"
    by (simp add: list_all_iff)
  with rule people alice bob returned show ?thesis
    by (intro conjI)
qed

subsection \<open>The assignment list as a set\<close>

text \<open>
  \<^verbatim>\<open>assign_to\<close> adds the participant to the set of those assigned and
  \<^verbatim>\<open>unassign_from\<close> takes the participant out of it, and both keep the list
  free of duplicates, as the constructor makes it.
\<close>

theorem assignment_set:
  "set (assigned_to (assign_to p item)) = insert p (set (assigned_to item))
   \<and> (distinct (assigned_to item) \<longrightarrow> distinct (assigned_to (assign_to p item)))
   \<and> (\<forall>item'. distinct (assigned_to item) \<and> unassign_from p item = Inr item'
         \<longrightarrow> set (assigned_to item') = set (assigned_to item) - {p}
             \<and> distinct (assigned_to item'))
   \<and> distinct (assigned_to (new_ReceiptItem n c q))"
proof (intro conjI allI impI)
  show "set (assigned_to (assign_to p item)) = insert p (set (assigned_to item))"
    by (auto simp: assign_to_def)
  show "distinct (assigned_to (assign_to p item))" if "distinct (assigned_to item)"
    using that by (rule assign_to_distinct)
  show "distinct (assigned_to (new_ReceiptItem n c q))"
    by (rule new_ReceiptItem_distinct)
next
  fix item'
  assume removed: "distinct (assigned_to item) \<and> unassign_from p item = Inr item'"
  then have "assigned_to item' = remove1 p (assigned_to item)"
    by (cases "p \<in> set (assigned_to item)")
       (auto simp: unassign_from_def list_remove_def remove1_idem)
  with removed show "set (assigned_to item') = set (assigned_to item) - {p}"
    and "distinct (assigned_to item')"
    by simp_all
qed

theorem assignment_set_witness:
  "distinct (assigned_to (sample_item ''Pizza'' 15 [''Alice'', ''Bob'']))
   \<and> assigned_to (assign_to ''Carol'' (sample_item ''Pizza'' 15 [''Alice'', ''Bob'']))
       = [''Alice'', ''Bob'', ''Carol'']
   \<and> unassign_from ''Alice'' (sample_item ''Pizza'' 15 [''Alice'', ''Bob''])
       = Inr (sample_item ''Pizza'' 15 [''Bob''])
   \<and> set (assigned_to (sample_item ''Pizza'' 15 [''Bob'']))
       = set (assigned_to (sample_item ''Pizza'' 15 [''Alice'', ''Bob''])) - {''Alice''}"
proof -
  let ?item = "sample_item ''Pizza'' 15 [''Alice'', ''Bob'']"
  have once: "distinct (assigned_to ?item)"
    by (simp add: sample_item_def)
  have added: "assigned_to (assign_to ''Carol'' ?item) = [''Alice'', ''Bob'', ''Carol'']"
    by (simp add: sample_item_def assign_to_def)
  have removed: "unassign_from ''Alice'' ?item = Inr (sample_item ''Pizza'' 15 [''Bob''])"
    by (simp add: sample_item_def unassign_from_def list_remove_def)
  note rule = assignment_set [of "''Alice''" "?item", THEN conjunct2, THEN conjunct2,
      THEN conjunct1, THEN spec, of "sample_item ''Pizza'' 15 [''Bob'']"]
  from rule once removed
  have "set (assigned_to (sample_item ''Pizza'' 15 [''Bob'']))
      = set (assigned_to ?item) - {''Alice''}"
    by blast
  with once added removed show ?thesis
    by (intro conjI)
qed

subsection \<open>The quantity of a parsed item\<close>

lemma line_fields_quantity:
  "0 \<le> item_quantity v \<Longrightarrow> 0 \<le> item_quantity (foldl line_field_step v fs)"
  by (induction fs arbitrary: v) (simp_all add: line_field_step_def extract_quantity_bounds)

lemma line_item_quantity: "0 \<le> item_quantity (line_item_locals li)"
  by (cases li) (simp_all add: line_item_locals_def line_fields_quantity initial_locals_def)

text \<open>
  What the source guarantees of a quantity: an item built without one has
  quantity 1, and an item of a parsed receipt has a quantity that is not negative.
\<close>

theorem parsed_quantity_bound:
  "quantity (new_ReceiptItem_default n p) = 1
   \<and> (\<forall>item \<in> set (items (parse_textract_response response)). 0 \<le> quantity item)"
proof -
  have "0 \<le> quantity item"
    if "item \<in> set (items (parse_textract_response response))" for item
  proof -
    from that obtain li where "item = item_of li"
      by (auto simp: parse_items scan_documents_items)
    then show ?thesis
      by (simp add: item_of_def new_ReceiptItem_def line_item_quantity)
  qed
  then show ?thesis
    by (simp add: default_quantity)
qed

theorem parsed_quantity_bound_witness:
  "map quantity (items (parse_textract_response (sample_response [] ''x 12''))) = [12, 2]
   \<and> list_all (\<lambda>item. 0 \<le> quantity item)
        (items (parse_textract_response (sample_response [] ''x 12'')))"
proof -
  have q: "extract_quantity ''x 12'' = 12"
    by (simp add: extract_quantity_def number_text_defs Let_def)
  have "map quantity (items (parse_textract_response (sample_response [] ''x 12''))) = [12, 2]"
    by (simp add: sample_items q new_ReceiptItem_def)
  moreover from parsed_quantity_bound [of _ _ "sample_response [] ''x 12''"]
  have "list_all (\<lambda>item. 0 \<le> quantity item)
      (items (parse_textract_response (sample_response [] ''x 12'')))"
    by (simp add: list_all_iff)
  ultimately show ?thesis
    by simp
qed

subsection \<open>Reading a decimal amount\<close>

lemma digits_value_snoc: "digits_value (ds @ [d]) = 10 * digits_value ds + digit_value d"
  by (simp add: digits_value_def)

lemma point_minus_no_digit: "\<not> is_digit CHR ''.''" "\<not> is_digit CHR ''-''"
  by (simp_all add: is_digit_def)

lemma digits_prefix:
  assumes "list_all is_digit a" and "\<not> is_digit c"
  shows "takeWhile is_digit (a @ c # b) = a" and "dropWhile is_digit (a @ c # b) = c # b"
  using assms by (induction a) simp_all

lemma digits_only:
  assumes "list_all is_digit a"
  shows "takeWhile is_digit a = a" and "dropWhile is_digit a = []"
  using assms by (induction a) simp_all

lemma no_leading_minus:
  assumes "list_all is_digit a"
  shows "hd (a @ CHR ''.'' # b) \<noteq> CHR ''-''"
  using assms by (cases a) (auto simp: is_digit_def)

lemma py_float_decimal:
  assumes "list_all is_digit a" and "list_all is_digit b" and "a \<noteq> [] \<or> b \<noteq> []"
  shows "py_float (a @ CHR ''.'' # b)
     = Inr (real (digits_value a) + real (digits_value b) / 10 ^ length b)"
  using assms no_leading_minus [OF assms(1), of b]
  by (simp add: py_float_def Let_def digits_prefix point_minus_no_digit)

lemma py_float_negative_decimal:
  assumes "list_all is_digit a" and "list_all is_digit b" and "a \<noteq> [] \<or> b \<noteq> []"
  shows "py_float (CHR ''-'' # a @ CHR ''.'' # b)
     = Inr (- (real (digits_value a) + real (digits_value b) / 10 ^ length b))"
  using assms
  by (simp add: py_float_def Let_def digits_prefix point_minus_no_digit)

lemma py_float_whole:
  assumes "list_all is_digit a" and "a \<noteq> []"
  shows "py_float a = Inr (real (digits_value a))"
proof -
  from assms have "hd a \<noteq> CHR ''-''"
    by (cases a) (auto simp: is_digit_def)
  moreover have zero: "digits_value [] = 0"
    by (simp add: digits_value_def)
  ultimately show ?thesis
    using assms by (simp add: py_float_def Let_def digits_only [OF assms(1)] list_all_iff)
qed

text \<open>
  When the digits, points and minus signs of a text spell a decimal number,
  \<^verbatim>\<open>_extract_price\<close> returns it: whole part, point and fraction, or the whole
  part alone, with or without a leading minus sign. Whatever else the text holds
  (currency symbols, separators, letters, spaces) does not count.
\<close>

theorem extract_price_decimal:
  assumes "list_all is_digit a" and "list_all is_digit b" and "a \<noteq> [] \<or> b \<noteq> []"
  shows "(cleaned_text t = a @ CHR ''.'' # b \<longrightarrow>
            extract_price t = real (digits_value a) + real (digits_value b) / 10 ^ length b)
         \<and> (cleaned_text t = CHR ''-'' # a @ CHR ''.'' # b \<longrightarrow>
            extract_price t = - (real (digits_value a) + real (digits_value b) / 10 ^ length b))
         \<and> (cleaned_text t = a \<and> a \<noteq> [] \<longrightarrow> extract_price t = real (digits_value a))"
proof -
  have nonempty: "t \<noteq> []" if "cleaned_text t \<noteq> []"
    using that by (auto simp: cleaned_text_def)
  show ?thesis
  proof (intro conjI impI)
    assume c: "cleaned_text t = a @ CHR ''.'' # b"
    with nonempty have "t \<noteq> []" by simp
    with c show "extract_price t = real (digits_value a) + real (digits_value b) / 10 ^ length b"
      by (simp add: extract_price_def py_float_decimal [OF assms])
  next
    assume c: "cleaned_text t = CHR ''-'' # a @ CHR ''.'' # b"
    with nonempty have "t \<noteq> []" by simp
    with c show "extract_price t
        = - (real (digits_value a) + real (digits_value b) / 10 ^ length b)"
      by (simp add: extract_price_def py_float_negative_decimal [OF assms])
  next
    assume c: "cleaned_text t = a \<and> a \<noteq> []"
    with nonempty have "t \<noteq> []" by simp
    with c show "extract_price t = real (digits_value a)"
      by (simp add: extract_price_def py_float_whole [OF assms(1)])
  qed
qed

theorem extract_price_decimal_witness:
  "list_all is_digit ''1234'' \<and> list_all is_digit ''56''
   \<and> cleaned_text ''Total: $1,234.56 USD'' = ''1234'' @ CHR ''.'' # ''56''
   \<and> digits_value ''1234'' = 1234 \<and> digits_value ''56'' = 56
   \<and> extract_price ''Total: $1,234.56 USD'' = 1234 + 56 / 10 ^ 2"
proof -
  have a: "list_all is_digit ''1234''" and b: "list_all is_digit ''56''"
    by (simp_all add: is_digit_def)
  have ne: "''1234'' \<noteq> [] \<or> ''56'' \<noteq> []"
    by simp
  have c: "cleaned_text ''Total: $1,234.56 USD'' = ''1234'' @ CHR ''.'' # ''56''"
    by (simp add: cleaned_text_def is_digit_def)
  have v: "digits_value ''1234'' = 1234" "digits_value ''56'' = 56"
    by (simp_all add: digits_value_def digit_value_def)
  from extract_price_decimal [OF a b ne, of "''Total: $1,234.56 USD''"] c v
  have "extract_price ''Total: $1,234.56 USD'' = 1234 + 56 / 10 ^ 2"
    by simp
  with a b c v show ?thesis
    by (intro conjI)
qed

end
